theory Spec2Isabelle
  imports Complex_Main "HOL-Library.Product_Lexorder" "HOL-Library.Multiset"
begin

section \<open>Steam download monitor: a shallow embedding of steam\_script.py\<close>

text \<open>
  The script watches the on-disk footprint of a game client. Python's unbounded
  integers are \<open>nat\<close> (sizes, application ids, counters) or \<open>int\<close>; Python's floats
  (wall-clock times, modification times, throughput) are idealised as \<open>real\<close>: every
  finite float is a real number, comparisons between floats are the comparisons of the
  reals they denote, and division by \<open>1024.0\<close> is exact in binary floating point.
  Strings are \<open>string\<close>, one \<open>char\<close> per code point, restricted to code points below 256.
  Every answer of the operating system (directory listings, stat results, file contents,
  the clock) is an explicit input of the model.
\<close>

subsection \<open>Decimal text of integers\<close>

definition digit_char :: "nat \<Rightarrow> char" where
  "digit_char d = ''0123456789'' ! d"

text \<open>Python's \<open>str(n)\<close> for a non-negative integer.\<close>

function str_nat :: "nat \<Rightarrow> string" where
  "str_nat n = (if n < 10 then [digit_char n] else str_nat (n div 10) @ [digit_char (n mod 10)])"
  by pat_completeness auto
termination
  by (relation "measure (\<lambda>n. n)") auto

declare str_nat.simps [simp del]

subsection \<open>real\_speed\<close>

text \<open>
  \<^verbatim>\<open>units = ["B/s", "KB/s", "MB/s", "GB/s"]\<close>
\<close>

definition units :: "string list" where
  "units = [''B/s'', ''KB/s'', ''MB/s'', ''GB/s'']"

text \<open>
  \<^verbatim>\<open>while val >= 1024 and i < len(units) - 1: val /= 1024.0; i += 1\<close>
\<close>

function scale_loop :: "real \<Rightarrow> nat \<Rightarrow> real \<times> nat" where
  "scale_loop val i =
     (if val \<ge> 1024 \<and> i < length units - 1 then scale_loop (val / 1024) (i + 1) else (val, i))"
  by pat_completeness auto
termination
  by (relation "measure (\<lambda>(val, i). length units - 1 - i)") auto

declare scale_loop.simps [simp del]

text \<open>
  The format specification \<open>.2f\<close> prints the decimal number with two fractional digits
  that is nearest to the exact value of the float, a tie going to the even last digit.
  \<open>round_half_even\<close> is that rounding to an integer; \<open>cents\<close> is the printed number in
  hundredths.
\<close>

definition round_half_even :: "real \<Rightarrow> int" where
  "round_half_even x =
     (let f = \<lfloor>x\<rfloor>; d = x - of_int f
      in if d < 1 / 2 then f else if d > 1 / 2 then f + 1 else if even f then f else f + 1)"

definition cents :: "real \<Rightarrow> int" where
  "cents val = round_half_even (val * 100)"

definition format_cents :: "int \<Rightarrow> string" where
  "format_cents c =
     str_nat (nat c div 100) @ ''.'' @ [digit_char (nat c mod 100 div 10), digit_char (nat c mod 10)]"

definition format_2f :: "real \<Rightarrow> string" where
  "format_2f val = (if val < 0 then ''-'' @ format_cents (cents (- val)) else format_cents (cents val))"

definition real_speed :: "real \<Rightarrow> string" where
  "real_speed bytes_per_sec =
     (let bytes_per_sec = (if bytes_per_sec < 0 then 0 else bytes_per_sec);
          (val, i) = scale_loop bytes_per_sec 0
      in format_2f val @ '' '' @ units ! i)"

text \<open>
  What a rendering denotes: the printed number times the size of the printed unit, in
  bytes per second.
\<close>

definition shown_magnitude :: "real \<Rightarrow> real" where
  "shown_magnitude bytes_per_sec =
     (let bytes_per_sec = (if bytes_per_sec < 0 then 0 else bytes_per_sec);
          (val, i) = scale_loop bytes_per_sec 0
      in of_int (cents val) / 100 * 1024 ^ i)"

subsection \<open>Characters and substrings\<close>

text \<open>
  Whitespace as \<open>\s\<close> and \<open>str.isspace\<close> see it below code point 256; decimal digits
  as \<open>\d\<close> sees them; \<open>str.isdigit\<close> also accepts the superscript digits
  (code points 178, 179 and 185), which \<open>int\<close> rejects.
\<close>

definition py_isspace :: "char \<Rightarrow> bool" where
  "py_isspace c = (of_char c \<in> {9, 10, 11, 12, 13, 28, 29, 30, 31, 32, 133, 160 :: nat})"

definition is_decimal :: "char \<Rightarrow> bool" where
  "is_decimal c = (48 \<le> (of_char c :: nat) \<and> (of_char c :: nat) \<le> 57)"

definition py_isdigit :: "string \<Rightarrow> bool" where
  "py_isdigit s = (s \<noteq> [] \<and> list_all (\<lambda>c. is_decimal c \<or> of_char c \<in> {178, 179, 185 :: nat}) s)"

text \<open>
  \<open>int(s)\<close> on a string that passed \<open>isdigit\<close>: the decimal value, or a \<open>ValueError\<close>
  (\<open>None\<close>) when a superscript digit occurs. The interpreter's limit on the number of
  digits (4300 by default) is beyond the length of a file name and is not modelled.
\<close>

definition py_int :: "string \<Rightarrow> nat option" where
  "py_int s = (if list_all is_decimal s then Some (foldl (\<lambda>acc c. 10 * acc + (of_char c - 48)) 0 s) else None)"

text \<open>
  \<open>str.lower\<close> on the letters A to Z. Lower-casing a character outside ASCII never
  yields a letter of the words searched for below, so the substring tests are the same.
\<close>

definition lower_char :: "char \<Rightarrow> char" where
  "lower_char c =
     (case map_of (zip ''ABCDEFGHIJKLMNOPQRSTUVWXYZ'' ''abcdefghijklmnopqrstuvwxyz'') c of
        Some l \<Rightarrow> l | None \<Rightarrow> c)"

definition lower :: "string \<Rightarrow> string" where
  "lower s = map lower_char s"

fun starts_with :: "string \<Rightarrow> string \<Rightarrow> bool" where
  "starts_with [] s = True"
| "starts_with (p # ps) [] = False"
| "starts_with (p # ps) (c # cs) = (p = c \<and> starts_with ps cs)"

text \<open>\<open>contains sub s\<close> is Python's \<open>sub in s\<close>.\<close>

fun contains :: "string \<Rightarrow> string \<Rightarrow> bool" where
  "contains sub [] = (sub = [])"
| "contains sub (c # cs) = (starts_with sub (c # cs) \<or> contains sub cs)"

definition quote :: char where
  "quote = CHR 0x22"


definition skip_space :: "string \<Rightarrow> string" where
  "skip_space s = dropWhile py_isspace s"

definition expect_quote :: "string \<Rightarrow> string option" where
  "expect_quote s = (case s of [] \<Rightarrow> None | c # r \<Rightarrow> if c = quote then Some r else None)"

text \<open>
  \<open>([^"]+)"\<close> and \<open>([^"]*)"\<close>: the run of characters up to the next quote, which must
  be there; a greedy match has no other choice, since the run may not contain a quote.
\<close>

definition quoted_run :: "string \<Rightarrow> (string \<times> string) option" where
  "quoted_run s =
     (case dropWhile (\<lambda>c. c \<noteq> quote) s of
        [] \<Rightarrow> None
      | c # r \<Rightarrow> Some (takeWhile (\<lambda>c. c \<noteq> quote) s, r))"

datatype 'a file_read = NotAFile | ReadError | Contents 'a

subsection \<open>parse\_key\_value\_file\<close>

text \<open>
  \<^verbatim>\<open>_kv_re = re.compile(r'^\s*"([^"]+)"\s*"([^"]*)"\s*$')\<close>, matched against one line.
\<close>

definition kv_match :: "string \<Rightarrow> (string \<times> string) option" where
  "kv_match line =
     (case expect_quote (skip_space line) of
        None \<Rightarrow> None
      | Some r1 \<Rightarrow>
          (case quoted_run r1 of
             None \<Rightarrow> None
           | Some (k, r2) \<Rightarrow>
               if k = [] then None
               else (case expect_quote (skip_space r2) of
                       None \<Rightarrow> None
                     | Some r3 \<Rightarrow>
                         (case quoted_run r3 of
                            None \<Rightarrow> None
                          | Some (v, r4) \<Rightarrow> if skip_space r4 = [] then Some (k, v) else None))))"

fun kv_lines :: "string list \<Rightarrow> (string \<rightharpoonup> string) \<Rightarrow> (string \<rightharpoonup> string)" where
  "kv_lines [] out = out"
| "kv_lines (line # rest) out =
     (case kv_match line of
        None \<Rightarrow> kv_lines rest out
      | Some (k, v) \<Rightarrow> kv_lines rest (out(k \<mapsto> v)))"

text \<open>
  The file is given as the result of opening it and iterating over its lines; a file
  that cannot be opened leaves the dictionary empty.
\<close>

definition parse_key_value_file :: "string list file_read \<Rightarrow> (string \<rightharpoonup> string)" where
  "parse_key_value_file f = (case f of Contents ls \<Rightarrow> kv_lines ls Map.empty | _ \<Rightarrow> Map.empty)"

subsection \<open>parse\_libraryfolders\_vdf\<close>











subsection \<open>folder\_size\_bytes\<close>

text \<open>
  What the traversal can see of an entry of a directory: a symbolic link; a regular
  file with the size that \<open>stat\<close> gives (\<open>None\<close> when it raises); a directory with what
  \<open>os.scandir\<close> lists in it (\<open>None\<close> when it raises); anything else, which is also how
  an entry whose type cannot be read behaves. A directory is given by its listing.
\<close>

datatype fs_entry = Symlink | RegularFile "nat option" | Subdir "fs_entry list option" | Other

type_synonym directory = "fs_entry list option"

text \<open>
  The inner loop over the entries of one directory: files add their size, directories
  are pushed on the stack, links and failures are passed over. The head of the list is
  the top of the stack.
\<close>

fun scan_dir :: "fs_entry list \<Rightarrow> nat \<Rightarrow> directory list \<Rightarrow> nat \<times> directory list" where
  "scan_dir [] tot stack = (tot, stack)"
| "scan_dir (e # es) tot stack =
     (case e of
        Symlink \<Rightarrow> scan_dir es tot stack
      | RegularFile None \<Rightarrow> scan_dir es tot stack
      | RegularFile (Some n) \<Rightarrow> scan_dir es (tot + n) stack
      | Subdir d \<Rightarrow> scan_dir es tot (d # stack)
      | Other \<Rightarrow> scan_dir es tot stack)"

text \<open>The number of directories below an entry, which bounds the work left on a stack.\<close>

fun entry_weight :: "fs_entry \<Rightarrow> nat" where
  "entry_weight (Subdir (Some es)) = Suc (sum_list (map entry_weight es))"
| "entry_weight (Subdir None) = 1"
| "entry_weight e = 0"

definition dir_weight :: "directory \<Rightarrow> nat" where
  "dir_weight d = (case d of None \<Rightarrow> 1 | Some es \<Rightarrow> Suc (sum_list (map entry_weight es)))"

text \<open>\<^verbatim>\<open>while stack: cur = stack.pop(); ...\<close>\<close>

function folder_size_loop :: "nat \<Rightarrow> directory list \<Rightarrow> nat" where
  "folder_size_loop tot [] = tot"
| "folder_size_loop tot (None # stack) = folder_size_loop tot stack"
| "folder_size_loop tot (Some es # stack) =
     folder_size_loop (fst (scan_dir es tot stack)) (snd (scan_dir es tot stack))"
  by pat_completeness auto
termination
proof -
  have w: "sum_list (map dir_weight (snd (scan_dir es tot stack)))
             = sum_list (map entry_weight es) + sum_list (map dir_weight stack)"
    for es tot stack
    by (induction es arbitrary: tot stack)
       (auto simp: dir_weight_def split: fs_entry.splits option.splits)
  show ?thesis
    by (relation "measure (\<lambda>(tot, stack). sum_list (map dir_weight stack))")
       (simp_all add: w dir_weight_def split_beta)
qed

definition folder_size_bytes :: "directory \<Rightarrow> nat" where
  "folder_size_bytes path = folder_size_loop 0 [path]"

subsection \<open>Libraries on disk\<close>

text \<open>
  One entry of \<open>os.scandir\<close> over a \<open>downloading\<close> directory: its name, the answer of
  \<open>is_dir(follow_symlinks=False)\<close> (\<open>None\<close> when it raises) and the modification time
  of \<open>stat(follow_symlinks=False)\<close> (\<open>None\<close> when it raises).
\<close>

record dir_entry =
  entry_name :: string
  entry_is_dir :: "bool option"
  entry_mtime :: "real option"

datatype scan = NoDirectory | ScanError | Listing "dir_entry list"

text \<open>
  What the script can observe of one \<open>steamapps\<close> folder at one moment:
  the \<open>downloading\<close> directory; for an application id, whether
  \<open>downloading/<id>\<close> is a directory and, if so, that directory; and the manifest
  file \<open>appmanifest_<id>.acf\<close>.
\<close>

record library =
  downloading :: scan
  download_dir :: "nat \<Rightarrow> directory option"
  manifest :: "nat \<Rightarrow> string list file_read"

subsection \<open>resolve\_app\_name\<close>

fun resolve_app_name :: "nat \<Rightarrow> library list \<Rightarrow> string" where
  "resolve_app_name a [] = ''AppID '' @ str_nat a"
| "resolve_app_name a (sa # rest) =
     (case manifest sa a of
        NotAFile \<Rightarrow> resolve_app_name a rest
      | f \<Rightarrow>
          (case parse_key_value_file f ''name'' of
             None \<Rightarrow> resolve_app_name a rest
           | Some n \<Rightarrow> if n \<noteq> [] then n else resolve_app_name a rest))"

subsection \<open>detect\_appid\_from\_downloading\_dir\<close>

text \<open>
  The loop over the entries of one \<open>downloading\<close> directory. An exception (from
  \<open>is_dir\<close> or from \<open>int\<close>) ends the loop for this library; what was appended before
  stays. A failing \<open>stat\<close> is caught inside and gives the modification time \<open>0.0\<close>.
\<close>

fun scan_entries :: "dir_entry list \<Rightarrow> (real \<times> nat) list" where
  "scan_entries [] = []"
| "scan_entries (e # es) =
     (case entry_is_dir e of
        None \<Rightarrow> []
      | Some d \<Rightarrow>
          if d \<and> py_isdigit (entry_name e) then
            (case py_int (entry_name e) of
               None \<Rightarrow> []
             | Some a \<Rightarrow>
                 (case entry_mtime e of None \<Rightarrow> 0 | Some t \<Rightarrow> t, a) # scan_entries es)
          else scan_entries es)"

definition library_candidates :: "library \<Rightarrow> (real \<times> nat) list" where
  "library_candidates sa =
     (case downloading sa of
        NoDirectory \<Rightarrow> []
      | ScanError \<Rightarrow> []
      | Listing es \<Rightarrow> scan_entries es)"

definition candidates :: "library list \<Rightarrow> (real \<times> nat) list" where
  "candidates steamapps_folders = concat (map library_candidates steamapps_folders)"

text \<open>
  \<^verbatim>\<open>candidates.sort(reverse=True); return candidates[0][1]\<close>. Tuples compare
  lexicographically, the time first; equal tuples are the same value, so reversing an
  ascending sort gives the list that the descending sort gives.
\<close>

definition sort_reverse :: "(real \<times> nat) list \<Rightarrow> (real \<times> nat) list" where
  "sort_reverse cs = rev (sort cs)"

definition detect_appid_from_downloading_dir :: "library list \<Rightarrow> nat option" where
  "detect_appid_from_downloading_dir steamapps_folders =
     (let cs = candidates steamapps_folders
      in if cs = [] then None else Some (snd (hd (sort_reverse cs))))"

subsection \<open>get\_downloading\_folder\<close>

text \<open>The directory found stands for its path.\<close>

fun get_downloading_folder :: "library list \<Rightarrow> nat \<Rightarrow> directory option" where
  "get_downloading_folder [] a = None"
| "get_downloading_folder (sa # rest) a =
     (case download_dir sa a of Some p \<Rightarrow> Some p | None \<Rightarrow> get_downloading_folder rest a)"

subsection \<open>detect\_status\_from\_content\_log\<close>

datatype status = Downloading | Paused | Unknown

fun scan_log :: "string list \<Rightarrow> status option" where
  "scan_log [] = None"
| "scan_log (line # rest) =
     (let low = lower line in
      if contains ''pause'' low then Some Paused
      else if (contains ''downloading'' low \<or> contains ''download'' low) \<and> \<not> contains ''pause'' low
      then Some Downloading
      else scan_log rest)"

text \<open>
  The log is \<open>None\<close> when \<open>content_log.txt\<close> is not a file, and otherwise the lines of
  its decoded tail (no lines when reading fails).
  \<^verbatim>\<open>lines[-800:]\<close> keeps the last 800 lines.
\<close>

definition detect_status_from_content_log :: "string list option \<Rightarrow> nat option \<Rightarrow> status option" where
  "detect_status_from_content_log log_lines a =
     (case log_lines of
        None \<Rightarrow> None
      | Some lines \<Rightarrow>
          (let lines = (case a of None \<Rightarrow> lines | Some n \<Rightarrow> filter (contains (str_nat n)) lines)
           in scan_log (rev (drop (length lines - 800) lines))))"

subsection \<open>monitor\_steam\_downloads\<close>

text \<open>
  The variables the loop carries from one tick to the next.
\<close>

record monitor_state =
  last_size :: "nat option"
  last_appid :: "nat option"
  last_time :: real
  zero_streak :: nat

text \<open>What one tick sees: the libraries, the content log and the clock.\<close>

record world =
  libraries :: "library list"
  content_log :: "string list option"
  clock :: real

text \<open>What one tick prints about the download it found.\<close>

record DownloadInfo =
  appid :: nat
  name :: string
  status :: status
  speed_bps :: real

text \<open>
  The size branch of the loop body: the throughput, the status after the
  unchanged-size rule and the new \<open>last_size\<close>.
\<close>

definition measure_speed ::
  "monitor_state \<Rightarrow> nat \<Rightarrow> real \<Rightarrow> status \<Rightarrow> directory option \<Rightarrow> real \<times> status \<times> nat option" where
  "measure_speed s a now st dl_folder =
     (case dl_folder of
        Some p \<Rightarrow>
          (let cur_size = folder_size_bytes p in
           (case last_size s of
              Some prev \<Rightarrow>
                if last_appid s = Some a then
                  (let dt = max (1 / 1000000) (now - last_time s);
                       speed = (real cur_size - real prev) / dt
                   in (speed, if cur_size = prev \<and> st = Unknown then Paused else st, Some cur_size))
                else (0, st, Some cur_size)
            | None \<Rightarrow> (0, st, Some cur_size)))
      | None \<Rightarrow> (0, st, None))"

text \<open>One pass through the body of the loop: what is printed, and the new state.\<close>

definition monitor_tick :: "world \<Rightarrow> monitor_state \<Rightarrow> DownloadInfo option \<times> monitor_state" where
  "monitor_tick w s =
     (case detect_appid_from_downloading_dir (libraries w) of
        None \<Rightarrow> (None, s\<lparr>last_size := None, last_appid := None\<rparr>)
      | Some a \<Rightarrow>
          (let nm = resolve_app_name a (libraries w);
               dl_folder = get_downloading_folder (libraries w) a;
               st0 = (case detect_status_from_content_log (content_log w) (Some a) of
                        None \<Rightarrow> Unknown | Some h \<Rightarrow> h);
               now = clock w;
               (speed, st1, size) = measure_speed s a now st0 dl_folder;
               streak = (if \<bar>speed\<bar> < 1024 then zero_streak s + 1 else 0);
               st2 = (if streak \<ge> 2 then Paused else st1);
               st3 = (if \<bar>speed\<bar> < 1 \<and> st2 = Unknown then Paused else st2)
           in (Some \<lparr>appid = a, name = nm, status = st3, speed_bps = speed\<rparr>,
               \<lparr>last_size = size, last_appid = Some a, last_time = now, zero_streak = streak\<rparr>)))"

fun monitor_loop :: "world list \<Rightarrow> monitor_state \<Rightarrow> DownloadInfo option list \<times> monitor_state" where
  "monitor_loop [] s = ([], s)"
| "monitor_loop (w # ws) s =
     (let (out, s1) = monitor_tick w s; (outs, s2) = monitor_loop ws s1 in (out # outs, s2))"

text \<open>
  The state before the first tick, \<open>t0\<close> being the clock at that moment, and the run of
  the loop once the install root and its libraries are found: one world per tick.
\<close>

definition initial_state :: "real \<Rightarrow> monitor_state" where
  "initial_state t0 = \<lparr>last_size = None, last_appid = None, last_time = t0, zero_streak = 0\<rparr>"

definition monitor_steam_downloads :: "real \<Rightarrow> world list \<Rightarrow> DownloadInfo option list \<times> monitor_state" where
  "monitor_steam_downloads t0 ws = monitor_loop ws (initial_state t0)"

subsection \<open>Example observations\<close>

text \<open>
  A library in which application 570 is being downloaded: its \<open>downloading\<close> directory
  holds the directory \<open>570\<close>, modified at time \<open>t\<close>, with one file of size \<open>n\<close>; there is
  no manifest. A world around it whose log mentions the download, one with no log file,
  and a world with no \<open>downloading\<close> directory at all.
\<close>

definition busy_library :: "real \<Rightarrow> nat \<Rightarrow> library" where
  "busy_library t n =
     \<lparr>downloading = Listing [\<lparr>entry_name = ''570'', entry_is_dir = Some True, entry_mtime = Some t\<rparr>],
      download_dir = (\<lambda>a. if a = 570 then Some (Some [RegularFile (Some n)]) else None),
      manifest = (\<lambda>a. NotAFile)\<rparr>"

definition busy_world :: "real \<Rightarrow> nat \<Rightarrow> world" where
  "busy_world now n =
     \<lparr>libraries = [busy_library now n],
      content_log = Some [''AppID 570 update changed : Running Update,Downloading,''],
      clock = now\<rparr>"

definition idle_world :: "real \<Rightarrow> world" where
  "idle_world now =
     \<lparr>libraries = [\<lparr>downloading = NoDirectory, download_dir = (\<lambda>a. None), manifest = (\<lambda>a. NotAFile)\<rparr>],
      content_log = None,
      clock = now\<rparr>"

definition quiet_world :: "real \<Rightarrow> nat \<Rightarrow> world" where
  "quiet_world now n = \<lparr>libraries = [busy_library now n], content_log = None, clock = now\<rparr>"


text \<open>
  A text in double quotes; a library with the given manifest for application 570; two
  manifest lines. \<open>usable_name\<close> is what \<open>resolve_app_name\<close> accepts from one library:
  the value of the key \<open>name\<close> in its manifest, when it is not empty.
\<close>

definition quoted :: "string \<Rightarrow> string" where
  "quoted s = quote # s @ [quote]"

definition manifest_library :: "string list file_read \<Rightarrow> library" where
  "manifest_library f =
     \<lparr>downloading = NoDirectory, download_dir = (\<lambda>a. None),
      manifest = (\<lambda>a. if a = 570 then f else NotAFile)\<rparr>"

definition appid_line :: string where
  "appid_line = CHR 0x09 # quoted ''appid'' @ [CHR 0x09, CHR 0x09] @ quoted ''570'' @ [CHR 0x0A]"

definition name_line :: string where
  "name_line = CHR 0x09 # quoted ''name'' @ [CHR 0x09, CHR 0x09] @ quoted ''Dota 2'' @ [CHR 0x0A]"

definition usable_name :: "library \<Rightarrow> nat \<Rightarrow> string option" where
  "usable_name sa a =
     (case parse_key_value_file (manifest sa a) ''name'' of
        None \<Rightarrow> None
      | Some n \<Rightarrow> if n \<noteq> [] then Some n else None)"




section \<open>Verification\<close>

subsection \<open>Speed formatting\<close>

lemma scale_loop_props:
  "scale_loop v j = (val, i) \<Longrightarrow> j \<le> 3 \<Longrightarrow>
     j \<le> i \<and> i \<le> 3 \<and> val = v / 1024 ^ (i - j) \<and> (i < 3 \<longrightarrow> val < 1024) \<and> (j < i \<longrightarrow> 1 \<le> val)"
proof (induction v j rule: scale_loop.induct)
  case (1 v j)
  show ?case
  proof (cases "v \<ge> 1024 \<and> j < length units - 1")
    case True
    then have j2: "j < 3" by (simp add: units_def)
    from True "1.prems" have rec: "scale_loop (v / 1024) (j + 1) = (val, i)"
      by (simp add: scale_loop.simps [of v j])
    have j3: "j + 1 \<le> 3" using j2 by simp
    note c = "1.IH" [OF True rec j3]
    have ih: "j + 1 \<le> i" "i \<le> 3" "val = v / 1024 / 1024 ^ (i - (j + 1))"
      "i < 3 \<longrightarrow> val < 1024" "j + 1 < i \<longrightarrow> 1 \<le> val"
      using c by blast+
    have pw: "(1024::real) ^ (i - j) = 1024 * 1024 ^ (i - (j + 1))"
      using ih(1) by (metis Suc_diff_le Suc_eq_plus1 diff_Suc_Suc power_Suc)
    have v1: "1 \<le> val"
    proof (cases "j + 1 < i")
      case True then show ?thesis using ih(5) by simp
    next
      case False
      then have "i = j + 1" using ih(1) by simp
      then have "val = v / 1024" using ih(3) by simp
      then show ?thesis using True by simp
    qed
    show ?thesis using ih pw v1 by simp
  next
    case False
    with "1.prems" have eq: "val = v" "i = j"
      by (auto simp: scale_loop.simps [of v j] split: if_splits)
    from False have "v < 1024 \<or> j = 3" using "1.prems"(2) by (auto simp: units_def)
    then show ?thesis using eq "1.prems"(2) by auto
  qed
qed

lemma scale_loop_0:
  assumes "scale_loop x 0 = (val, i)"
  shows "i \<le> 3" "val = x / 1024 ^ i" "i < 3 \<longrightarrow> val < 1024" "0 < i \<longrightarrow> 1 \<le> val"
proof -
  have c: "0 \<le> i \<and> i \<le> 3 \<and> val = x / 1024 ^ (i - 0) \<and> (i < 3 \<longrightarrow> val < 1024) \<and> (0 < i \<longrightarrow> 1 \<le> val)"
    by (rule scale_loop_props [OF assms]) simp
  from c show "i \<le> 3" by blast
  from c have "val = x / 1024 ^ (i - 0)" by blast
  then show "val = x / 1024 ^ i" by (simp only: diff_zero)
  from c show "i < 3 \<longrightarrow> val < 1024" by blast
  from c show "0 < i \<longrightarrow> 1 \<le> val" by blast
qed

lemma round_half_even_bounds: "\<lfloor>x\<rfloor> \<le> round_half_even x \<and> round_half_even x \<le> \<lfloor>x\<rfloor> + 1"
  by (simp add: round_half_even_def Let_def)

lemma round_half_even_of_int [simp]: "round_half_even (of_int n) = n"
  by (simp add: round_half_even_def Let_def)

lemma round_half_even_mono: "x \<le> y \<Longrightarrow> round_half_even x \<le> round_half_even y"
proof -
  assume le: "x \<le> y"
  then have fl: "\<lfloor>x\<rfloor> \<le> \<lfloor>y\<rfloor>" by (rule floor_mono)
  show ?thesis
  proof (cases "\<lfloor>x\<rfloor> = \<lfloor>y\<rfloor>")
    case True
    then have "x - of_int \<lfloor>x\<rfloor> \<le> y - of_int \<lfloor>y\<rfloor>" using le by simp
    then show ?thesis using True by (auto simp: round_half_even_def Let_def)
  next
    case False
    then have "\<lfloor>x\<rfloor> + 1 \<le> \<lfloor>y\<rfloor>" using fl by simp
    then show ?thesis
      using round_half_even_bounds [of x] round_half_even_bounds [of y] by linarith
  qed
qed

lemma round_half_even_close: "\<bar>of_int (round_half_even x) - x\<bar> \<le> 1 / 2"
  unfolding round_half_even_def Let_def by (auto; linarith)

lemma cents_mono: "u \<le> v \<Longrightarrow> cents u \<le> cents v"
  unfolding cents_def by (rule round_half_even_mono) simp

lemma cents_nonneg: "0 \<le> v \<Longrightarrow> 0 \<le> cents v"
proof -
  assume "0 \<le> v"
  then have "cents 0 \<le> cents v" by (rule cents_mono)
  then show ?thesis by (simp add: cents_def round_half_even_def)
qed

lemma cents_ge_100: "1 \<le> v \<Longrightarrow> 100 \<le> cents v"
proof -
  assume "1 \<le> v"
  then have "cents 1 \<le> cents v" by (rule cents_mono)
  moreover have "cents 1 = 100" using round_half_even_of_int [of 100] by (simp add: cents_def)
  ultimately show ?thesis by simp
qed

lemma cents_le_102400: "v \<le> 1024 \<Longrightarrow> cents v \<le> 102400"
proof -
  assume "v \<le> 1024"
  then have "cents v \<le> cents 1024" by (rule cents_mono)
  moreover have "cents 1024 = 102400" using round_half_even_of_int [of 102400] by (simp add: cents_def)
  ultimately show ?thesis by simp
qed

lemma cents_close: "\<bar>real_of_int (cents v) / 100 - v\<bar> \<le> 1 / 200"
  using round_half_even_close [of "v * 100"] unfolding cents_def by (simp add: field_simps abs_le_iff)

lemma shown_magnitude_mono_nonneg:
  assumes x0: "0 \<le> x" and xy: "x \<le> y"
  shows "shown_magnitude x \<le> shown_magnitude y"
proof -
  obtain v1 i1 where s1: "scale_loop x 0 = (v1, i1)" by (cases "scale_loop x 0")
  obtain v2 i2 where s2: "scale_loop y 0 = (v2, i2)" by (cases "scale_loop y 0")
  note p1 = scale_loop_0 [OF s1] and p2 = scale_loop_0 [OF s2]
  from x0 xy have y0: "0 \<le> y" by simp
  have m1: "shown_magnitude x = real_of_int (cents v1) / 100 * 1024 ^ i1"
    using x0 s1 by (simp add: shown_magnitude_def)
  have m2: "shown_magnitude y = real_of_int (cents v2) / 100 * 1024 ^ i2"
    using y0 s2 by (simp add: shown_magnitude_def)
  consider (eq) "i1 = i2" | (lt) "i1 < i2" | (gt) "i2 < i1" by linarith
  then show ?thesis
  proof cases
    case eq
    have "v1 \<le> v2" using p1(2) p2(2) eq xy by (simp add: divide_right_mono)
    then have "cents v1 \<le> cents v2" by (rule cents_mono)
    then have "real_of_int (cents v1) / 100 \<le> real_of_int (cents v2) / 100" by simp
    then show ?thesis unfolding m1 m2 eq by (rule mult_right_mono) simp
  next
    case lt
    then have "i1 < 3" using p2(1) by simp
    then have "v1 \<le> 1024" using p1(3) by simp
    then have c1: "real_of_int (cents v1) / 100 \<le> 1024" using cents_le_102400 [of v1] by simp
    have "1 \<le> v2" using lt p2(4) by simp
    then have c2: "1 \<le> real_of_int (cents v2) / 100" using cents_ge_100 [of v2] by simp
    have "real_of_int (cents v1) / 100 * 1024 ^ i1 \<le> 1024 * 1024 ^ i1"
      using c1 by (rule mult_right_mono) simp
    also have "\<dots> = 1024 ^ Suc i1" by simp
    also have "\<dots> \<le> (1024::real) ^ i2" using lt by (intro power_increasing) simp_all
    also have "\<dots> = 1 * 1024 ^ i2" by simp
    also have "\<dots> \<le> real_of_int (cents v2) / 100 * 1024 ^ i2"
      using c2 by (rule mult_right_mono) simp
    finally show ?thesis unfolding m1 m2 .
  next
    case gt
    then have "i2 < 3" using p1(1) by simp
    then have a: "y / 1024 ^ i2 < 1024" using p2(2,3) by simp
    have "1 \<le> x / 1024 ^ i1" using gt p1(2,4) by simp
    then have "(1024::real) ^ i1 \<le> x" by (simp add: field_simps)
    moreover have "(1024::real) ^ Suc i2 \<le> 1024 ^ i1" using gt by (intro power_increasing) simp_all
    ultimately have "(1024::real) ^ Suc i2 \<le> y" using xy by linarith
    then have "1024 \<le> y / 1024 ^ i2" by (simp add: field_simps)
    with a show ?thesis by simp
  qed
qed

lemma shown_magnitude_neg: "x < 0 \<Longrightarrow> shown_magnitude x = shown_magnitude 0"
  by (simp add: shown_magnitude_def)

lemma shown_magnitude_mono: "x \<le> y \<Longrightarrow> shown_magnitude x \<le> shown_magnitude y"
proof (cases "0 \<le> x")
  case True
  assume "x \<le> y" with True show ?thesis by (rule shown_magnitude_mono_nonneg)
next
  case False
  assume xy: "x \<le> y"
  from False have x: "shown_magnitude x = shown_magnitude 0" by (simp add: shown_magnitude_neg)
  show ?thesis
  proof (cases "0 \<le> y")
    case True
    then show ?thesis unfolding x by (intro shown_magnitude_mono_nonneg) simp_all
  next
    case False
    then show ?thesis unfolding x by (simp add: shown_magnitude_neg)
  qed
qed

lemma format_cents_digits:
  assumes "0 \<le> c"
  shows "\<exists>ip d1 d2. d1 < 10 \<and> d2 < 10 \<and> c = int (ip * 100 + d1 * 10 + d2)
           \<and> format_cents c = str_nat ip @ ''.'' @ [digit_char d1, digit_char d2]"
proof -
  define n where "n = nat c"
  have a: "n = n div 100 * 100 + n mod 100" by simp
  have b: "n mod 100 = n mod 100 div 10 * 10 + n mod 100 mod 10" by simp
  have "n mod 100 mod 10 = n mod 10" by (rule mod_mod_cancel) simp
  with a b have "n = n div 100 * 100 + n mod 100 div 10 * 10 + n mod 10" by linarith
  then have e: "c = int (n div 100 * 100 + n mod 100 div 10 * 10 + n mod 10)"
    using assms n_def by linarith
  have d1: "n mod 100 div 10 < 10" by (simp add: less_mult_imp_div_less)
  have d2: "n mod 10 < 10" by simp
  have f: "format_cents c = str_nat (n div 100) @ ''.'' @ [digit_char (n mod 100 div 10), digit_char (n mod 10)]"
    by (simp add: format_cents_def n_def)
  have "n mod 100 div 10 < 10 \<and> n mod 10 < 10 \<and> c = int (n div 100 * 100 + n mod 100 div 10 * 10 + n mod 10)
           \<and> format_cents c = str_nat (n div 100) @ ''.'' @ [digit_char (n mod 100 div 10), digit_char (n mod 10)]"
    using d1 d2 e f by (intro conjI)
  then show ?thesis by - (rule exI)+
qed

lemmas real_speed_eval =
  real_speed_def scale_loop.simps units_def format_2f_def cents_def
  round_half_even_def format_cents_def str_nat.simps digit_char_def Let_def

text \<open>
  Claim C10. For every negative input the value is clamped to 0 before it is formatted, so
  a negative throughput renders exactly as \<open>0.00 B/s\<close>.
\<close>

theorem real_speed_negative: "x < 0 \<Longrightarrow> real_speed x = ''0.00 B/s''"
  by (simp add: real_speed_eval)

theorem real_speed_negative_witness: "(-1120::real) < 0 \<and> real_speed (-1120) = ''0.00 B/s''"
  using real_speed_negative [of "-1120"] by simp

text \<open>
  Claim C7, as stated, asks that the displayed number be below 1024 at every unit but the
  top one. At 1048575 bytes per second the loop stops at \<open>KB/s\<close> with the value
  1023.999..., which two-decimal rounding prints as \<open>1024.00\<close>.
\<close>

theorem real_speed_shows_1024_below_top_unit:
  "real_speed 1048575 = ''1024.00 KB/s'' \<and> scale_loop 1048575 0 = (1048575 / 1024, 1)
     \<and> 1 < length units - 1 \<and> \<not> real_of_int (cents (1048575 / 1024)) / 100 < 1024"
  by (simp add: real_speed_eval)

text \<open>
  Claim C7, amended. For every non-negative input \<open>x\<close> the loop stops at the first unit
  \<open>i\<close> at which the scaled value \<open>val = x / 1024 ^ i\<close> is below 1024, or at the top unit;
  above the bottom unit the value is at least 1. The comparison is on the unrounded
  value. The text is that value rounded to two decimals (the integer part, a point and
  exactly two digits) followed by the unit, so the printed number differs from \<open>val\<close> by
  at most 0.005 and is at most 1024.00 below the top unit. The rendered magnitude is
  monotonically non-decreasing in the input.
\<close>

theorem real_speed_unit_rounding:
  assumes "0 \<le> x"
  shows "\<exists>val i ip d1 d2.
      scale_loop x 0 = (val, i) \<and> i < length units \<and> val = x / 1024 ^ i
    \<and> (i < length units - 1 \<longrightarrow> val < 1024) \<and> (0 < i \<longrightarrow> 1 \<le> val)
    \<and> cents val = int (ip * 100 + d1 * 10 + d2) \<and> d1 < 10 \<and> d2 < 10
    \<and> \<bar>real_of_int (cents val) / 100 - val\<bar> \<le> 1 / 200
    \<and> (i < length units - 1 \<longrightarrow> cents val \<le> 102400)
    \<and> real_speed x = str_nat ip @ ''.'' @ [digit_char d1, digit_char d2] @ '' '' @ units ! i
    \<and> (\<forall>y. x \<le> y \<longrightarrow> shown_magnitude x \<le> shown_magnitude y)"
proof -
  obtain val i where s: "scale_loop x 0 = (val, i)" by (cases "scale_loop x 0")
  note p = scale_loop_0 [OF s]
  have v0: "0 \<le> val" using p(2) assms by simp
  then have "0 \<le> cents val" by (rule cents_nonneg)
  from format_cents_digits [OF this] obtain ip d1 d2 where
    d: "d1 < 10" "d2 < 10" "cents val = int (ip * 100 + d1 * 10 + d2)"
       "format_cents (cents val) = str_nat ip @ ''.'' @ [digit_char d1, digit_char d2]"
    by blast
  have rs: "real_speed x = str_nat ip @ ''.'' @ [digit_char d1, digit_char d2] @ '' '' @ units ! i"
    using assms s v0 d(4) by (simp add: real_speed_def format_2f_def)
  have top: "i < length units - 1 \<longrightarrow> cents val \<le> 102400"
    using p(3) cents_le_102400 [of val] by (auto simp: units_def)
  have mono: "\<forall>y. x \<le> y \<longrightarrow> shown_magnitude x \<le> shown_magnitude y"
    using shown_magnitude_mono by blast
  have l: "i < length units" and b: "i < length units - 1 \<longrightarrow> val < 1024"
    using p(1,3) by (auto simp: units_def)
  note cl = cents_close [of val]
  have "scale_loop x 0 = (val, i) \<and> i < length units \<and> val = x / 1024 ^ i
    \<and> (i < length units - 1 \<longrightarrow> val < 1024) \<and> (0 < i \<longrightarrow> 1 \<le> val)
    \<and> cents val = int (ip * 100 + d1 * 10 + d2) \<and> d1 < 10 \<and> d2 < 10
    \<and> \<bar>real_of_int (cents val) / 100 - val\<bar> \<le> 1 / 200
    \<and> (i < length units - 1 \<longrightarrow> cents val \<le> 102400)
    \<and> real_speed x = str_nat ip @ ''.'' @ [digit_char d1, digit_char d2] @ '' '' @ units ! i
    \<and> (\<forall>y. x \<le> y \<longrightarrow> shown_magnitude x \<le> shown_magnitude y)"
    using s l p(2) b p(4) d(3) d(1) d(2) cl top rs mono by (intro conjI)
  then show ?thesis by - (rule exI)+
qed

theorem real_speed_unit_rounding_witness:
  "(0::real) \<le> 1120 \<and> real_speed 1120 = ''1.09 KB/s''
     \<and> shown_magnitude 1120 \<le> shown_magnitude 1048575"
proof -
  have h: "(0::real) \<le> 1120" by simp
  from real_speed_unit_rounding [OF h] have "shown_magnitude 1120 \<le> shown_magnitude 1048575"
    by auto
  moreover have "real_speed 1120 = ''1.09 KB/s''"
    by (simp add: real_speed_eval)
  ultimately show ?thesis by simp
qed

subsection \<open>The monitoring loop\<close>

lemma str_nat_570: "str_nat 570 = ''570''"
  by (simp add: str_nat.simps digit_char_def)

lemma py_int_570: "py_isdigit ''570''" "py_int ''570'' = Some 570"
  by (simp_all add: py_isdigit_def py_int_def is_decimal_def)

lemma busy_detect: "detect_appid_from_downloading_dir (libraries (busy_world now n)) = Some 570"
  by (simp add: busy_world_def busy_library_def detect_appid_from_downloading_dir_def candidates_def
      library_candidates_def sort_reverse_def py_int_570)

lemma busy_name: "resolve_app_name 570 (libraries (busy_world now n)) = ''AppID 570''"
  by (simp add: busy_world_def busy_library_def str_nat_570)

lemma busy_hint:
  "detect_status_from_content_log (content_log (busy_world now n)) (Some 570) = Some Downloading"
  by (simp add: busy_world_def detect_status_from_content_log_def str_nat_570 lower_def lower_char_def)

lemma busy_folder:
  "get_downloading_folder (libraries (busy_world now n)) 570 = Some (Some [RegularFile (Some n)])"
  "folder_size_bytes (Some [RegularFile (Some n)]) = n"
  by (simp_all add: busy_world_def busy_library_def folder_size_bytes_def)

lemma busy_tick:
  "monitor_tick (busy_world 60 4096) \<lparr>last_size = Some 4096, last_appid = Some 570, last_time = 0, zero_streak = 1\<rparr>
     = (Some \<lparr>appid = 570, name = ''AppID 570'', status = Paused, speed_bps = 0\<rparr>,
        \<lparr>last_size = Some 4096, last_appid = Some 570, last_time = 60, zero_streak = 2\<rparr>)"
  by (simp add: monitor_tick_def busy_detect busy_name busy_hint busy_folder measure_speed_def
      busy_world_def [of 60 4096, THEN arg_cong, of clock])

lemma detect_None_iff: "detect_appid_from_downloading_dir libs = None \<longleftrightarrow> candidates libs = []"
  by (simp add: detect_appid_from_downloading_dir_def Let_def)

lemma monitor_tick_idle:
  "candidates (libraries w) = [] \<Longrightarrow>
     monitor_tick w s = (None, s\<lparr>last_size := None, last_appid := None\<rparr>)"
  by (simp add: monitor_tick_def detect_None_iff [symmetric])

text \<open>What a tick that prints a sample leaves in the state.\<close>

lemma monitor_tick_sample:
  assumes "monitor_tick w s = (Some d, s')"
  shows "detect_appid_from_downloading_dir (libraries w) = Some (appid d)"
    and "last_appid s' = Some (appid d)"
    and "last_time s' = clock w"
    and "last_size s' =
           map_option folder_size_bytes (get_downloading_folder (libraries w) (appid d))"
    and "zero_streak s' = (if \<bar>speed_bps d\<bar> < 1024 then zero_streak s + 1 else 0)"
    and "2 \<le> zero_streak s' \<longrightarrow> status d = Paused"
    and "(speed_bps d, status d) =
           (let st0 = (case detect_status_from_content_log (content_log w) (Some (appid d)) of
                         None \<Rightarrow> Unknown | Some h \<Rightarrow> h);
                (speed, st1, size) = measure_speed s (appid d) (clock w) st0
                                       (get_downloading_folder (libraries w) (appid d));
                st2 = (if 2 \<le> zero_streak s' then Paused else st1)
            in (speed, if \<bar>speed\<bar> < 1 \<and> st2 = Unknown then Paused else st2))"
proof -
  obtain a where a: "detect_appid_from_downloading_dir (libraries w) = Some a"
    using assms by (cases "detect_appid_from_downloading_dir (libraries w)") (simp_all add: monitor_tick_def)
  define st0 where "st0 = (case detect_status_from_content_log (content_log w) (Some a) of
                         None \<Rightarrow> Unknown | Some h \<Rightarrow> h)"
  obtain speed st1 size where m:
    "measure_speed s a (clock w) st0 (get_downloading_folder (libraries w) a) = (speed, st1, size)"
    by (cases "measure_speed s a (clock w) st0 (get_downloading_folder (libraries w) a)")
  have sz: "size = map_option folder_size_bytes (get_downloading_folder (libraries w) a)"
    using m by (auto simp: measure_speed_def Let_def split: option.splits if_splits)
  from assms a m have d: "d = \<lparr>appid = a, name = resolve_app_name a (libraries w),
        status = (let st2 = (if (if \<bar>speed\<bar> < 1024 then zero_streak s + 1 else 0) \<ge> 2 then Paused else st1)
                  in if \<bar>speed\<bar> < 1 \<and> st2 = Unknown then Paused else st2),
        speed_bps = speed\<rparr>"
    and s': "s' = \<lparr>last_size = size, last_appid = Some a, last_time = clock w,
        zero_streak = (if \<bar>speed\<bar> < 1024 then zero_streak s + 1 else 0)\<rparr>"
    by (simp_all add: monitor_tick_def st0_def [symmetric] Let_def)
  show "detect_appid_from_downloading_dir (libraries w) = Some (appid d)" using a d by simp
  show "last_appid s' = Some (appid d)" using d s' by simp
  show "last_time s' = clock w" using s' by simp
  show "last_size s' =
           map_option folder_size_bytes (get_downloading_folder (libraries w) (appid d))"
    using d s' sz by simp
  show "zero_streak s' = (if \<bar>speed_bps d\<bar> < 1024 then zero_streak s + 1 else 0)"
    using d s' by simp
  show "2 \<le> zero_streak s' \<longrightarrow> status d = Paused"
    using d s' by (simp add: Let_def)
  show "(speed_bps d, status d) =
           (let st0 = (case detect_status_from_content_log (content_log w) (Some (appid d)) of
                         None \<Rightarrow> Unknown | Some h \<Rightarrow> h);
                (speed, st1, size) = measure_speed s (appid d) (clock w) st0
                                       (get_downloading_folder (libraries w) (appid d));
                st2 = (if 2 \<le> zero_streak s' then Paused else st1)
            in (speed, if \<bar>speed\<bar> < 1 \<and> st2 = Unknown then Paused else st2))"
    using d s' m by (simp add: Let_def st0_def [symmetric])
qed

text \<open>After a tick without a candidate, or for a newly seen application, the throughput is 0.\<close>

lemma measure_speed_no_baseline:
  "last_size s = None \<Longrightarrow> measure_speed s a now st dl = (0, st, map_option folder_size_bytes dl)"
  by (simp add: measure_speed_def Let_def split: option.splits)

lemma measure_speed_same_size:
  assumes "last_size s = Some n" "last_appid s = Some a" "folder_size_bytes p = n"
  shows "measure_speed s a now st (Some p) = (0, if st = Unknown then Paused else st, Some n)"
  using assms by (simp add: measure_speed_def Let_def)

text \<open>
  Claim C1. On every tick that finds a candidate, the counter \<open>zero_streak\<close> is
  incremented when the absolute throughput is below 1024 bytes per second and reset to
  zero otherwise; when it has reached 2 the printed status is \<open>Paused\<close>, whatever the
  log hint and the earlier rules produced.
\<close>

theorem zero_streak_forces_paused:
  assumes "monitor_tick w s = (Some d, s')"
  shows "zero_streak s' = (if \<bar>speed_bps d\<bar> < 1024 then zero_streak s + 1 else 0)
       \<and> (2 \<le> zero_streak s' \<longrightarrow> status d = Paused)"
  using monitor_tick_sample(5,6) [OF assms] by simp

theorem zero_streak_forces_paused_witness:
  "monitor_tick (busy_world 60 4096)
       \<lparr>last_size = Some 4096, last_appid = Some 570, last_time = 0, zero_streak = 1\<rparr>
     = (Some \<lparr>appid = 570, name = ''AppID 570'', status = Paused, speed_bps = 0\<rparr>,
        \<lparr>last_size = Some 4096, last_appid = Some 570, last_time = 60, zero_streak = 2\<rparr>)
   \<and> detect_status_from_content_log (content_log (busy_world 60 4096)) (Some 570) = Some Downloading
   \<and> status \<lparr>appid = 570, name = ''AppID 570'', status = Paused, speed_bps = 0\<rparr> = Paused"
  using zero_streak_forces_paused [OF busy_tick] busy_tick busy_hint by simp

text \<open>
  Claim C2. Two consecutive ticks find the same application with a resolvable
  in-progress directory of the same total size: the throughput of the second tick is
  exactly 0 and, when the log gives no hint, its status is \<open>Paused\<close>. The elapsed time
  needs no hypothesis, since the loop floors it to a positive value.
\<close>

theorem unchanged_size_zero_throughput:
  assumes t1: "monitor_tick w1 s0 = (Some d1, s1)"
      and t2: "monitor_tick w2 s1 = (Some d2, s2)"
      and same: "appid d2 = appid d1"
      and f1: "get_downloading_folder (libraries w1) (appid d1) = Some p1"
      and f2: "get_downloading_folder (libraries w2) (appid d2) = Some p2"
      and sz: "folder_size_bytes p2 = folder_size_bytes p1"
  shows "speed_bps d2 = 0
       \<and> (detect_status_from_content_log (content_log w2) (Some (appid d2)) = None
            \<longrightarrow> status d2 = Paused)"
proof -
  have ls: "last_size s1 = Some (folder_size_bytes p1)"
    using monitor_tick_sample(4) [OF t1] f1 by simp
  have la: "last_appid s1 = Some (appid d2)"
    using monitor_tick_sample(2) [OF t1] same by simp
  note m = measure_speed_same_size [OF ls la sz]
  note r = monitor_tick_sample(7) [OF t2]
  show ?thesis using r by (simp add: f2 m Let_def split: option.splits)
qed

lemma quiet_detect: "detect_appid_from_downloading_dir (libraries (quiet_world now n)) = Some 570"
  using busy_detect [of now n] by (simp add: busy_world_def quiet_world_def)

lemma quiet_name: "resolve_app_name 570 (libraries (quiet_world now n)) = ''AppID 570''"
  using busy_name [of now n] by (simp add: busy_world_def quiet_world_def)

lemma quiet_hint:
  "detect_status_from_content_log (content_log (quiet_world now n)) (Some 570) = None"
  by (simp add: quiet_world_def detect_status_from_content_log_def)

lemma quiet_folder:
  "get_downloading_folder (libraries (quiet_world now n)) 570 = Some (Some [RegularFile (Some n)])"
  using busy_folder(1) [of now n] by (simp add: busy_world_def quiet_world_def)

lemma quiet_clock: "clock (quiet_world now n) = now"
  by (simp add: quiet_world_def)

lemma busy_clock: "clock (busy_world now n) = now"
  by (simp add: busy_world_def)

lemma quiet_tick_1:
  "monitor_tick (quiet_world 60 4096) (initial_state 0)
     = (Some \<lparr>appid = 570, name = ''AppID 570'', status = Paused, speed_bps = 0\<rparr>,
        \<lparr>last_size = Some 4096, last_appid = Some 570, last_time = 60, zero_streak = 1\<rparr>)"
  by (simp add: monitor_tick_def quiet_detect quiet_name quiet_hint quiet_folder busy_folder
      measure_speed_def quiet_clock initial_state_def)

lemma quiet_tick_2:
  "monitor_tick (quiet_world 120 4096)
       \<lparr>last_size = Some 4096, last_appid = Some 570, last_time = 60, zero_streak = 1\<rparr>
     = (Some \<lparr>appid = 570, name = ''AppID 570'', status = Paused, speed_bps = 0\<rparr>,
        \<lparr>last_size = Some 4096, last_appid = Some 570, last_time = 120, zero_streak = 2\<rparr>)"
  by (simp add: monitor_tick_def quiet_detect quiet_name quiet_hint quiet_folder busy_folder
      measure_speed_def quiet_clock)

theorem unchanged_size_zero_throughput_witness:
  "monitor_tick (quiet_world 60 4096) (initial_state 0)
     = (Some \<lparr>appid = 570, name = ''AppID 570'', status = Paused, speed_bps = 0\<rparr>,
        \<lparr>last_size = Some 4096, last_appid = Some 570, last_time = 60, zero_streak = 1\<rparr>)
   \<and> monitor_tick (quiet_world 120 4096)
       \<lparr>last_size = Some 4096, last_appid = Some 570, last_time = 60, zero_streak = 1\<rparr>
     = (Some \<lparr>appid = 570, name = ''AppID 570'', status = Paused, speed_bps = 0\<rparr>,
        \<lparr>last_size = Some 4096, last_appid = Some 570, last_time = 120, zero_streak = 2\<rparr>)
   \<and> get_downloading_folder (libraries (quiet_world 60 4096)) 570 = Some (Some [RegularFile (Some 4096)])
   \<and> get_downloading_folder (libraries (quiet_world 120 4096)) 570 = Some (Some [RegularFile (Some 4096)])
   \<and> folder_size_bytes (Some [RegularFile (Some 4096)]) = 4096
   \<and> detect_status_from_content_log (content_log (quiet_world 120 4096)) (Some 570) = None
   \<and> speed_bps \<lparr>appid = 570, name = ''AppID 570'', status = Paused, speed_bps = 0\<rparr> = 0
   \<and> status \<lparr>appid = 570, name = ''AppID 570'', status = Paused, speed_bps = 0\<rparr> = Paused"
proof -
  have f1: "get_downloading_folder (libraries (quiet_world 60 4096))
              (appid \<lparr>appid = 570, name = ''AppID 570'', status = Paused, speed_bps = 0\<rparr>)
            = Some (Some [RegularFile (Some 4096)])"
    by (simp add: quiet_folder)
  have f2: "get_downloading_folder (libraries (quiet_world 120 4096))
              (appid \<lparr>appid = 570, name = ''AppID 570'', status = Paused, speed_bps = 0\<rparr>)
            = Some (Some [RegularFile (Some 4096)])"
    by (simp add: quiet_folder)
  have sz: "folder_size_bytes (Some [RegularFile (Some 4096)]) = folder_size_bytes (Some [RegularFile (Some 4096)])"
    by (rule refl)
  note t = unchanged_size_zero_throughput [OF quiet_tick_1 quiet_tick_2 refl f1 f2 sz]
  show ?thesis
    using t quiet_tick_1 quiet_tick_2 quiet_folder quiet_hint busy_folder(2) by simp
qed

lemma monitor_loop_idle:
  assumes "\<forall>w \<in> set ws. candidates (libraries w) = []"
  shows "monitor_loop ws s =
           (replicate (length ws) None, if ws = [] then s else s\<lparr>last_size := None, last_appid := None\<rparr>)"
  using assms
proof (induction ws arbitrary: s)
  case Nil
  then show ?case by simp
next
  case (Cons w ws)
  then have w: "candidates (libraries w) = []" and rest: "\<forall>w \<in> set ws. candidates (libraries w) = []"
    by simp_all
  show ?case
    by (simp add: monitor_tick_idle [OF w] Cons.IH [OF rest])
qed

text \<open>
  Claim C8. On ticks where no in-progress directory yields a candidate, nothing is
  printed for the download and \<open>last_size\<close> and \<open>last_appid\<close> are cleared, and stay
  cleared over every such tick; a run of such ticks from the initial state ends in the
  initial state.
\<close>

theorem no_candidate_no_sample:
  assumes "\<forall>w \<in> set ws. candidates (libraries w) = []"
  shows "fst (monitor_loop ws s) = replicate (length ws) None
       \<and> (ws \<noteq> [] \<longrightarrow> last_size (snd (monitor_loop ws s)) = None
                        \<and> last_appid (snd (monitor_loop ws s)) = None)
       \<and> monitor_steam_downloads t0 ws = (replicate (length ws) None, initial_state t0)"
  by (simp add: monitor_loop_idle [OF assms] monitor_steam_downloads_def initial_state_def)

lemma idle_candidates: "candidates (libraries (idle_world now)) = []"
  by (simp add: idle_world_def candidates_def library_candidates_def)

theorem no_candidate_no_sample_witness:
  "candidates (libraries (idle_world 60)) = [] \<and> candidates (libraries (idle_world 120)) = []
   \<and> monitor_steam_downloads 0 [idle_world 60, idle_world 120] = ([None, None], initial_state 0)
   \<and> last_size (snd (monitor_loop [idle_world 60, idle_world 120]
        \<lparr>last_size = Some 4096, last_appid = Some 570, last_time = 0, zero_streak = 1\<rparr>)) = None
   \<and> last_appid (snd (monitor_loop [idle_world 60, idle_world 120]
        \<lparr>last_size = Some 4096, last_appid = Some 570, last_time = 0, zero_streak = 1\<rparr>)) = None"
proof -
  have h: "\<forall>w \<in> set [idle_world 60, idle_world 120]. candidates (libraries w) = []"
    by (simp add: idle_candidates)
  from no_candidate_no_sample [OF h, of "\<lparr>last_size = Some 4096, last_appid = Some 570, last_time = 0, zero_streak = 1\<rparr>" 0]
  show ?thesis by (simp add: idle_candidates)
qed

text \<open>
  Claim C9. A tick without a candidate leaves \<open>zero_streak\<close> as it was. So when at least
  one low-speed tick was counted before the gap, the first download found after the gap
  (throughput 0, there being no baseline) brings the counter to 2 and is printed as
  \<open>Paused\<close>, whatever the log says.
\<close>

theorem zero_streak_survives_gap:
  assumes "candidates (libraries wg) = []"
  shows "fst (monitor_tick wg s) = None
       \<and> zero_streak (snd (monitor_tick wg s)) = zero_streak s
       \<and> (\<forall>w d s'. 1 \<le> zero_streak s \<and> monitor_tick w (snd (monitor_tick wg s)) = (Some d, s')
             \<longrightarrow> speed_bps d = 0 \<and> zero_streak s' = zero_streak s + 1 \<and> status d = Paused)"
proof -
  let ?g = "s\<lparr>last_size := None, last_appid := None\<rparr>"
  have g: "monitor_tick wg s = (None, ?g)" by (rule monitor_tick_idle [OF assms])
  have "speed_bps d = 0 \<and> zero_streak s' = zero_streak s + 1 \<and> status d = Paused"
    if a: "1 \<le> zero_streak s" and t: "monitor_tick w ?g = (Some d, s')" for w d s'
  proof -
    have m: "measure_speed ?g a now st dl = (0, st, map_option folder_size_bytes dl)"
      for a now st dl by (rule measure_speed_no_baseline) simp
    have sp: "speed_bps d = 0" using monitor_tick_sample(7) [OF t] by (simp add: m Let_def)
    then have z: "zero_streak s' = zero_streak s + 1" using monitor_tick_sample(5) [OF t] by simp
    then have "2 \<le> zero_streak s'" using a by simp
    then have "status d = Paused" using monitor_tick_sample(6) [OF t] by simp
    with sp z show ?thesis by simp
  qed
  then have "\<forall>w d s'. 1 \<le> zero_streak s \<and> monitor_tick w ?g = (Some d, s')
             \<longrightarrow> speed_bps d = 0 \<and> zero_streak s' = zero_streak s + 1 \<and> status d = Paused"
    by blast
  then show ?thesis by (simp add: g)
qed

lemma busy_tick_first:
  "monitor_tick (busy_world 60 4096) (initial_state 0)
     = (Some \<lparr>appid = 570, name = ''AppID 570'', status = Downloading, speed_bps = 0\<rparr>,
        \<lparr>last_size = Some 4096, last_appid = Some 570, last_time = 60, zero_streak = 1\<rparr>)"
  by (simp add: monitor_tick_def busy_detect busy_name busy_hint busy_folder
      measure_speed_def busy_clock initial_state_def)

lemma busy_tick_after_gap:
  "monitor_tick (busy_world 180 9000000)
       \<lparr>last_size = None, last_appid = None, last_time = 60, zero_streak = 1\<rparr>
     = (Some \<lparr>appid = 570, name = ''AppID 570'', status = Paused, speed_bps = 0\<rparr>,
        \<lparr>last_size = Some 9000000, last_appid = Some 570, last_time = 180, zero_streak = 2\<rparr>)"
  by (simp add: monitor_tick_def busy_detect busy_name busy_hint busy_folder
      measure_speed_def busy_clock)

theorem zero_streak_survives_gap_witness:
  "candidates (libraries (idle_world 120)) = []
   \<and> monitor_tick (busy_world 60 4096) (initial_state 0)
       = (Some \<lparr>appid = 570, name = ''AppID 570'', status = Downloading, speed_bps = 0\<rparr>,
          \<lparr>last_size = Some 4096, last_appid = Some 570, last_time = 60, zero_streak = 1\<rparr>)
   \<and> monitor_tick (idle_world 120)
         \<lparr>last_size = Some 4096, last_appid = Some 570, last_time = 60, zero_streak = 1\<rparr>
       = (None, \<lparr>last_size = None, last_appid = None, last_time = 60, zero_streak = 1\<rparr>)
   \<and> monitor_tick (busy_world 180 9000000)
         \<lparr>last_size = None, last_appid = None, last_time = 60, zero_streak = 1\<rparr>
       = (Some \<lparr>appid = 570, name = ''AppID 570'', status = Paused, speed_bps = 0\<rparr>,
          \<lparr>last_size = Some 9000000, last_appid = Some 570, last_time = 180, zero_streak = 2\<rparr>)
   \<and> detect_status_from_content_log (content_log (busy_world 180 9000000)) (Some 570) = Some Downloading"
proof -
  let ?s = "\<lparr>last_size = Some 4096, last_appid = Some 570, last_time = 60, zero_streak = 1\<rparr>"
  note g = zero_streak_survives_gap [OF idle_candidates [of 120], of ?s]
  have i: "monitor_tick (idle_world 120) ?s
       = (None, \<lparr>last_size = None, last_appid = None, last_time = 60, zero_streak = 1\<rparr>)"
    by (simp add: monitor_tick_idle [OF idle_candidates])
  show ?thesis using g i busy_tick_first busy_tick_after_gap busy_hint idle_candidates by simp
qed

subsection \<open>Candidate selection\<close>












subsection \<open>Name resolution\<close>

lemmas kv_eval =
  kv_match_def quoted_def skip_space_def py_isspace_def expect_quote_def quoted_run_def quote_def

lemma kv_appid_line: "kv_match appid_line = Some (''appid'', ''570'')"
  by (simp add: appid_line_def kv_eval)

lemma kv_name_line: "kv_match name_line = Some (''name'', ''Dota 2'')"
  by (simp add: name_line_def kv_eval)

lemma kv_brace: "kv_match ''{'' = None"
  by (simp add: kv_eval)

lemma resolve_app_name_step:
  "resolve_app_name a (sa # rest) =
     (case usable_name sa a of Some n \<Rightarrow> n | None \<Rightarrow> resolve_app_name a rest)"
  by (cases "manifest sa a")
     (simp_all add: usable_name_def parse_key_value_file_def split: option.splits)

text \<open>
  Claim C5, as stated, returns the fallback name when the first manifest found lacks a
  name key. With a first library whose manifest has no name line and a second whose
  manifest names the application, the loop goes on to the second library and returns
  its name.
\<close>

theorem resolve_app_name_passes_over_nameless_manifest:
  "manifest (manifest_library (Contents [''{'', appid_line])) 570 = Contents [''{'', appid_line]
   \<and> parse_key_value_file (Contents [''{'', appid_line]) ''name'' = None
   \<and> resolve_app_name 570
        [manifest_library (Contents [''{'', appid_line]), manifest_library (Contents [''{'', appid_line, name_line])]
       = ''Dota 2''"
  by (simp add: manifest_library_def parse_key_value_file_def kv_appid_line kv_name_line kv_brace)

text \<open>
  Claim C5, amended. The libraries are scanned in order and the result is the name of
  the first library whose manifest gives a non-empty name; a manifest that is missing,
  cannot be read, or has no name or an empty one is passed over. When no library gives a
  name the result is \<open>AppID\<close> followed by the id. The function is total: it always
  returns a string.
\<close>

theorem resolve_app_name_first_usable:
  "resolve_app_name a libs =
     (case List.map_filter (\<lambda>sa. usable_name sa a) libs of
        [] \<Rightarrow> ''AppID '' @ str_nat a
      | n # _ \<Rightarrow> n)
   \<and> ((\<forall>sa \<in> set libs. usable_name sa a = None) \<longrightarrow> resolve_app_name a libs = ''AppID '' @ str_nat a)"
proof -
  have e: "resolve_app_name a libs =
     (case List.map_filter (\<lambda>sa. usable_name sa a) libs of
        [] \<Rightarrow> ''AppID '' @ str_nat a
      | n # _ \<Rightarrow> n)"
  proof (induction libs)
    case Nil
    show ?case by (simp add: List.map_filter_simps)
  next
    case (Cons sa rest)
    show ?case
      by (cases "usable_name sa a")
         (simp_all only: resolve_app_name_step List.map_filter_simps Cons.IH option.case list.case)
  qed
  have "List.map_filter (\<lambda>sa. usable_name sa a) libs = []"
    if "\<forall>sa \<in> set libs. usable_name sa a = None"
    using that by (induction libs) (simp_all add: List.map_filter_simps)
  with e show ?thesis by simp
qed

theorem resolve_app_name_first_usable_witness:
  "usable_name (manifest_library NotAFile) 570 = None
   \<and> usable_name (manifest_library ReadError) 570 = None
   \<and> usable_name (manifest_library (Contents [''{'', appid_line])) 570 = None
   \<and> usable_name (manifest_library (Contents [name_line])) 570 = Some ''Dota 2''
   \<and> resolve_app_name 570
        [manifest_library NotAFile, manifest_library ReadError, manifest_library (Contents [''{'', appid_line])]
       = ''AppID 570''
   \<and> resolve_app_name 570
        [manifest_library NotAFile, manifest_library (Contents [name_line]), manifest_library (Contents [''{'', appid_line])]
       = ''Dota 2''"
proof -
  have u: "usable_name (manifest_library NotAFile) 570 = None"
    "usable_name (manifest_library ReadError) 570 = None"
    "usable_name (manifest_library (Contents [''{'', appid_line])) 570 = None"
    "usable_name (manifest_library (Contents [name_line])) 570 = Some ''Dota 2''"
    by (simp_all add: usable_name_def manifest_library_def parse_key_value_file_def
        kv_appid_line kv_name_line kv_brace)
  have s: "str_nat 570 = ''570''" by (simp add: str_nat.simps digit_char_def)
  have a: "resolve_app_name 570
        [manifest_library NotAFile, manifest_library ReadError, manifest_library (Contents [''{'', appid_line])]
       = ''AppID 570''"
    using resolve_app_name_first_usable [of 570 "[manifest_library NotAFile, manifest_library ReadError, manifest_library (Contents [''{'', appid_line])]"]
    by (simp add: u s)
  have b: "resolve_app_name 570
        [manifest_library NotAFile, manifest_library (Contents [name_line]), manifest_library (Contents [''{'', appid_line])]
       = ''Dota 2''"
    using resolve_app_name_first_usable [of 570 "[manifest_library NotAFile, manifest_library (Contents [name_line]), manifest_library (Contents [''{'', appid_line])]"]
    by (simp add: u List.map_filter_simps)
  show ?thesis using u a b by simp
qed

subsection \<open>Library configuration\<close>













end
